theory Spec2Isabelle
  imports
    Complex_Main
    "HOL-Library.Char_ord"
    "HOL-Library.List_Lexorder"
    "HOL-Library.Product_Lexorder"
    "HOL-Library.Multiset"
begin

section \<open>The model-table generator \<open>scripts/update_models.py\<close>\<close>

text \<open>
  The script fetches a model list and a pricing list, joins them by model identifier,
  derives a provider label and two price labels per model, sorts, and writes one document.
  Python strings are modelled as \<open>string\<close>; the case mapping of \<open>str.title\<close> is the one of
  the ASCII letters, every other character is caseless and left as it is.
\<close>

subsection \<open>String helpers of the Python library\<close>

definition is_upper :: "char \<Rightarrow> bool" where
  "is_upper c = (CHR ''A'' \<le> c \<and> c \<le> CHR ''Z'')"

definition is_lower :: "char \<Rightarrow> bool" where
  "is_lower c = (CHR ''a'' \<le> c \<and> c \<le> CHR ''z'')"

definition is_cased :: "char \<Rightarrow> bool" where
  "is_cased c = (is_upper c \<or> is_lower c)"

definition to_upper :: "char \<Rightarrow> char" where
  "to_upper c = (if is_lower c then char_of (of_char c - (32::nat)) else c)"

definition to_lower :: "char \<Rightarrow> char" where
  "to_lower c = (if is_upper c then char_of (of_char c + (32::nat)) else c)"

text \<open>
  \<open>str.title\<close>: a character that follows a cased character is lowered, any other one is
  put in title case; whether a character is cased is read off the original character.
\<close>

fun title_loop :: "bool \<Rightarrow> string \<Rightarrow> string" where
  "title_loop previous_is_cased [] = []"
| "title_loop previous_is_cased (c # cs) =
     (if previous_is_cased then to_lower c else to_upper c) # title_loop (is_cased c) cs"

definition title :: "string \<Rightarrow> string" where
  "title s = title_loop False s"

text \<open>\<open>s.replace(old, new)\<close> for one-character \<open>old\<close> and \<open>new\<close>.\<close>

definition replace_char :: "char \<Rightarrow> char \<Rightarrow> string \<Rightarrow> string" where
  "replace_char old new s = map (\<lambda>c. if c = old then new else c) s"

text \<open>\<open>s.startswith(p)\<close>.\<close>

fun startswith :: "string \<Rightarrow> string \<Rightarrow> bool" where
  "startswith s [] = True"
| "startswith [] (p # ps) = False"
| "startswith (c # cs) (p # ps) = (c = p \<and> startswith cs ps)"

text \<open>\<open>sep.join(xs)\<close>.\<close>

fun join :: "string \<Rightarrow> string list \<Rightarrow> string" where
  "join sep [] = []"
| "join sep [x] = x"
| "join sep (x # y # ys) = x @ sep @ join sep (y # ys)"

subsection \<open>Classifier\<close>

text \<open>The dictionary literals, in declaration order (the order \<open>items()\<close> iterates in).\<close>

definition PROVIDER_MAP :: "(string \<times> string) list" where
  "PROVIDER_MAP =
    [(''gemini'', ''Google''),
     (''google/'', ''Google''),
     (''deepseek-ai/'', ''DeepSeek''),
     (''meta-llama/'', ''Meta''),
     (''Qwen/'', ''Qwen''),
     (''mistralai/'', ''Mistral''),
     (''moonshotai/'', ''Moonshot''),
     (''openai/'', ''OpenAI''),
     (''gpt-'', ''OpenAI''),
     (''black-forest-labs/'', ''Black Forest Labs''),
     (''x-ai/'', ''xAI''),
     (''openrouter/'', ''OpenRouter''),
     (''zai-org/'', ''Zhipu AI''),
     (''whisper-'', ''OpenAI'')]"

definition CATEGORY_MAP :: "(string \<times> string) list" where
  "CATEGORY_MAP =
    [(''openai'', ''Chat''),
     (''gemini'', ''Chat''),
     (''image-generation'', ''Image'')]"

text \<open>The \<open>for\<close> loop of \<open>detect_provider\<close>: \<open>Some\<close> is the early \<open>return\<close>.\<close>

fun provider_scan :: "(string \<times> string) list \<Rightarrow> string \<Rightarrow> string option" where
  "provider_scan [] model_id = None"
| "provider_scan ((prefix, provider) # rest) model_id =
     (if startswith model_id prefix then Some provider else provider_scan rest model_id)"

definition detect_provider :: "string \<Rightarrow> string \<Rightarrow> string" where
  "detect_provider model_id owned_by =
     (case provider_scan PROVIDER_MAP model_id of
        Some provider \<Rightarrow> provider
      | None \<Rightarrow>
          if owned_by = ''vertex-ai'' then ''Google''
          else if owned_by = ''openai'' then ''OpenAI''
          else title (replace_char CHR ''-'' CHR '' '' owned_by))"

text \<open>\<open>CATEGORY_MAP.get(ep, ep.replace("-", " ").title())\<close>.\<close>

definition category_of :: "string \<Rightarrow> string" where
  "category_of ep =
     (case map_of CATEGORY_MAP ep of
        Some cat \<Rightarrow> cat
      | None \<Rightarrow> title (replace_char CHR ''-'' CHR '' '' ep))"

text \<open>The loop of \<open>detect_category\<close>, threading the list \<open>categories\<close>.\<close>

fun category_loop :: "string list \<Rightarrow> string list \<Rightarrow> string list" where
  "category_loop categories [] = categories"
| "category_loop categories (ep # eps) =
     (let cat = category_of ep
      in category_loop (if cat \<notin> set categories then categories @ [cat] else categories) eps)"

definition detect_category :: "string list \<Rightarrow> string" where
  "detect_category endpoint_types = join '', '' (category_loop [] endpoint_types)"

subsection \<open>Python numbers\<close>

text \<open>
  A JSON number is parsed to a Python \<open>int\<close> (unbounded) or \<open>float\<close> (IEEE binary64).
  A finite float is modelled by the rational number it denotes; the two zeros are one value,
  which the script cannot tell apart (a zero is printed as \<open>Free\<close> wherever it is printed).
\<close>

datatype pyfloat = Fin rat | PInf | NInf | NaN

datatype pynum = PInt int | PFloat pyfloat

datatype error = NetworkError | DecodeError | KeyError string | OverflowError

definition pow2 :: "int \<Rightarrow> rat" where
  "pow2 e = (if 0 \<le> e then 2 ^ nat e else 1 / 2 ^ nat (- e))"

definition pow10 :: "int \<Rightarrow> rat" where
  "pow10 e = (if 0 \<le> e then 10 ^ nat e else 1 / 10 ^ nat (- e))"

text \<open>\<open>int.bit_length\<close> and the number of decimal digits of a natural number.\<close>

fun bit_length :: "nat \<Rightarrow> nat" where
  "bit_length n = (if n = 0 then 0 else Suc (bit_length (n div 2)))"

fun dec_length :: "nat \<Rightarrow> nat" where
  "dec_length n = (if n = 0 then 0 else Suc (dec_length (n div 10)))"

declare bit_length.simps [simp del] dec_length.simps [simp del]

text \<open>Rounding to the nearest integer, ties to the even one.\<close>

definition round_half_even :: "rat \<Rightarrow> int" where
  "round_half_even x =
     (let f = \<lfloor>x\<rfloor>; d = x - of_int f
      in if d < 1 / 2 then f
         else if 1 / 2 < d then f + 1
         else if even f then f else f + 1)"

text \<open>
  For \<open>a > 0\<close>, the exponent \<open>e\<close> with \<open>2 ^ e \<le> a < 2 ^ (e + 1)\<close>, and the decimal point
  position \<open>k\<close> with \<open>10 ^ (k - 1) \<le> a < 10 ^ k\<close>, both from the digit counts of numerator
  and denominator.
\<close>

definition float_exponent :: "rat \<Rightarrow> int" where
  "float_exponent a =
     (let (n, d) = quotient_of a;
          e0 = int (bit_length (nat n)) - int (bit_length (nat d))
      in if pow2 e0 \<le> a then e0 else e0 - 1)"

definition decimal_point :: "rat \<Rightarrow> int" where
  "decimal_point a =
     (let (n, d) = quotient_of a;
          k0 = int (dec_length (nat n)) - int (dec_length (nat d))
      in if pow10 k0 \<le> a then k0 + 1 else k0)"

text \<open>
  Rounding a rational to binary64, to nearest and ties to even: 53 significant bits, the
  least exponent of a unit in the last place is \<open>-1074\<close> (subnormal numbers), and a
  result of \<open>2 ^ 1024\<close> or more is an infinity. This is how a decimal literal is read and
  how the result of a float operation is rounded.
\<close>

definition round_double :: "rat \<Rightarrow> pyfloat" where
  "round_double r =
     (if r = 0 then Fin 0
      else
        let a = \<bar>r\<bar>;
            q = max (float_exponent a - 52) (- 1074);
            v = of_int (round_half_even (a / pow2 q)) * pow2 q
        in if pow2 1024 \<le> v then (if 0 < r then PInf else NInf)
           else Fin (if 0 < r then v else - v))"

text \<open>Float multiplication.\<close>

fun float_mul :: "pyfloat \<Rightarrow> pyfloat \<Rightarrow> pyfloat" where
  "float_mul (Fin x) (Fin y) = round_double (x * y)"
| "float_mul NaN y = NaN"
| "float_mul x NaN = NaN"
| "float_mul (Fin x) PInf = (if x = 0 then NaN else if 0 < x then PInf else NInf)"
| "float_mul (Fin x) NInf = (if x = 0 then NaN else if 0 < x then NInf else PInf)"
| "float_mul PInf (Fin y) = (if y = 0 then NaN else if 0 < y then PInf else NInf)"
| "float_mul NInf (Fin y) = (if y = 0 then NaN else if 0 < y then NInf else PInf)"
| "float_mul PInf PInf = PInf"
| "float_mul PInf NInf = NInf"
| "float_mul NInf PInf = NInf"
| "float_mul NInf NInf = PInf"

text \<open>
  An \<open>int\<close> operand of a float operation is converted first; the conversion raises
  \<open>OverflowError\<close> where the rounded value is out of range.
\<close>

definition int_to_float :: "int \<Rightarrow> error + pyfloat" where
  "int_to_float i =
     (case round_double (of_int i) of
        Fin v \<Rightarrow> Inr (Fin v)
      | _ \<Rightarrow> Inl OverflowError)"

definition to_float :: "pynum \<Rightarrow> error + pyfloat" where
  "to_float x = (case x of PInt i \<Rightarrow> int_to_float i | PFloat f \<Rightarrow> Inr f)"

text \<open>\<open>x * y\<close> on numbers: exact on two ints, a float product otherwise.\<close>

definition num_mul :: "pynum \<Rightarrow> pynum \<Rightarrow> error + pynum" where
  "num_mul x y =
     (case (x, y) of
        (PInt i, PInt j) \<Rightarrow> Inr (PInt (i * j))
      | _ \<Rightarrow>
          (case to_float x of
             Inl e \<Rightarrow> Inl e
           | Inr a \<Rightarrow>
               (case to_float y of
                  Inl e \<Rightarrow> Inl e
                | Inr b \<Rightarrow> Inr (PFloat (float_mul a b)))))"

text \<open>\<open>x * c\<close> for a float \<open>c\<close>: always a float.\<close>

definition num_mul_float :: "pynum \<Rightarrow> pyfloat \<Rightarrow> error + pyfloat" where
  "num_mul_float x c =
     (case to_float x of
        Inl e \<Rightarrow> Inl e
      | Inr a \<Rightarrow> Inr (float_mul a c))"

text \<open>Comparisons with a finite constant; every comparison with a NaN is false.\<close>

fun float_eq :: "pyfloat \<Rightarrow> rat \<Rightarrow> bool" where
  "float_eq (Fin x) c = (x = c)"
| "float_eq _ c = False"

fun float_lt :: "pyfloat \<Rightarrow> rat \<Rightarrow> bool" where
  "float_lt (Fin x) c = (x < c)"
| "float_lt NInf c = True"
| "float_lt _ c = False"

fun float_gt :: "pyfloat \<Rightarrow> rat \<Rightarrow> bool" where
  "float_gt (Fin x) c = (c < x)"
| "float_gt PInf c = True"
| "float_gt _ c = False"

fun float_ge :: "pyfloat \<Rightarrow> rat \<Rightarrow> bool" where
  "float_ge (Fin x) c = (c \<le> x)"
| "float_ge PInf c = True"
| "float_ge _ c = False"

text \<open>\<open>x == i\<close> and \<open>x > i\<close> for a number \<open>x\<close> and an int constant \<open>i\<close>.\<close>

fun num_eq_int :: "pynum \<Rightarrow> int \<Rightarrow> bool" where
  "num_eq_int (PInt j) i = (j = i)"
| "num_eq_int (PFloat f) i = float_eq f (of_int i)"

fun num_gt_int :: "pynum \<Rightarrow> int \<Rightarrow> bool" where
  "num_gt_int (PInt j) i = (i < j)"
| "num_gt_int (PFloat f) i = float_gt f (of_int i)"

subsection \<open>Printing numbers\<close>

definition digit_char :: "nat \<Rightarrow> char" where
  "digit_char d = char_of (48 + d)"

fun show_nat :: "nat \<Rightarrow> string" where
  "show_nat n = (if n < 10 then [digit_char n] else show_nat (n div 10) @ [digit_char (n mod 10)])"

declare show_nat.simps [simp del]

definition show_int :: "int \<Rightarrow> string" where
  "show_int i = (if i < 0 then ''-'' @ show_nat (nat (- i)) else show_nat (nat i))"

text \<open>
  The format \<open>.nf\<close> on a finite value: the value is rounded to \<open>n\<close> decimal places, ties
  to even, and printed with at least one digit before the point; a negative value keeps
  its sign also where it rounds to zero.
\<close>

definition fixed_digits :: "nat \<Rightarrow> rat \<Rightarrow> string" where
  "fixed_digits n a =
     (let ds = show_nat (nat (round_half_even (a * 10 ^ n)))
      in replicate (Suc n - length ds) CHR ''0'' @ ds)"

definition format_fixed :: "nat \<Rightarrow> rat \<Rightarrow> string" where
  "format_fixed n r =
     (let ds = fixed_digits n \<bar>r\<bar>;
          k = length ds - n
      in (if r < 0 then ''-'' else []) @ take k ds @ (if n = 0 then [] else ''.'' @ drop k ds))"

fun float_format_f :: "nat \<Rightarrow> pyfloat \<Rightarrow> string" where
  "float_format_f n (Fin r) = format_fixed n r"
| "float_format_f n PInf = ''inf''"
| "float_format_f n NInf = ''-inf''"
| "float_format_f n NaN = ''nan''"

text \<open>
  \<open>repr\<close> of a positive finite float: the shortest decimal digit string that reads back
  as the same float (at most 17 digits are needed), printed in positional notation with
  a fractional part, or in exponent notation where the decimal point position \<open>k\<close> has
  \<open>k \<le> -4\<close> or \<open>16 < k\<close>.
\<close>

fun shortest_digits :: "nat \<Rightarrow> rat \<Rightarrow> nat \<Rightarrow> nat \<times> int" where
  "shortest_digits 0 a n =
     (nat (round_half_even (a / pow10 (decimal_point a - int n))), decimal_point a - int n)"
| "shortest_digits (Suc fuel) a n =
     (let u = decimal_point a - int n;
          d = round_half_even (a / pow10 u)
      in if round_double (of_int d * pow10 u) = Fin a then (nat d, u)
         else shortest_digits fuel a (Suc n))"

fun strip_zeros :: "string \<Rightarrow> string" where
  "strip_zeros ds = rev (dropWhile (\<lambda>c. c = CHR ''0'') (rev ds))"

definition show_exponent :: "int \<Rightarrow> string" where
  "show_exponent e =
     (let ds = show_nat (nat \<bar>e\<bar>)
      in (if e < 0 then ''-'' else ''+'') @ replicate (2 - length ds) CHR ''0'' @ ds)"

definition repr_positive :: "rat \<Rightarrow> string" where
  "repr_positive a =
     (let (d, u) = shortest_digits 16 a 1;
          ds = strip_zeros (show_nat d);
          k = u + int (length (show_nat d))
      in if k \<le> - 4 \<or> 16 < k then
           take 1 ds @ (if 1 < length ds then ''.'' @ drop 1 ds else []) @ ''e'' @ show_exponent (k - 1)
         else if k \<le> 0 then ''0.'' @ replicate (nat (- k)) CHR ''0'' @ ds
         else if int (length ds) \<le> k then ds @ replicate (nat k - length ds) CHR ''0'' @ ''.0''
         else take (nat k) ds @ ''.'' @ drop (nat k) ds)"

fun float_repr :: "pyfloat \<Rightarrow> string" where
  "float_repr (Fin r) =
     (if r = 0 then ''0.0'' else if r < 0 then ''-'' @ repr_positive (- r) else repr_positive r)"
| "float_repr PInf = ''inf''"
| "float_repr NInf = ''-inf''"
| "float_repr NaN = ''nan''"

text \<open>\<open>str(x)\<close>, which is what an f-string field without a format prints.\<close>

fun py_str :: "pynum \<Rightarrow> string" where
  "py_str (PInt i) = show_int i"
| "py_str (PFloat f) = float_repr f"

subsection \<open>Price formatter\<close>

definition BASE_UNIT :: pyfloat where
  "BASE_UNIT = Fin 2"

text \<open>The float that a decimal literal of the source denotes.\<close>

definition float_literal :: "rat \<Rightarrow> rat" where
  "float_literal x = (case round_double x of Fin v \<Rightarrow> v | _ \<Rightarrow> 0)"

definition format_price :: "pyfloat \<Rightarrow> string" where
  "format_price v =
     (if float_eq v 0 then ''Free''
      else if float_lt v (float_literal (1 / 100)) then ''$'' @ float_format_f 4 v
      else if float_ge v 1 then ''$'' @ float_format_f 2 v
      else ''$'' @ float_format_f 2 v)"

subsection \<open>The parsed responses\<close>

text \<open>
  A JSON object is a record of the keys the script reads, each present or absent;
  strings and numbers have the types the endpoints document. A subscript \<open>d[key]\<close>
  raises \<open>KeyError\<close> on an absent key, \<open>d.get(key, default)\<close> gives the default.
\<close>

record model_rec =
  id' :: "string option"
  owned_by :: "string option"

record pricing_rec =
  model_name :: "string option"
  quota_type :: "pynum option"
  model_ratio :: "pynum option"
  completion_ratio :: "pynum option"
  model_price :: "pynum option"

record 'a document =
  data :: "'a list option"

definition subscript :: "string \<Rightarrow> 'a option \<Rightarrow> error + 'a" where
  "subscript key field = (case field of None \<Rightarrow> Inl (KeyError key) | Some v \<Rightarrow> Inr v)"

definition get_default :: "'a option \<Rightarrow> 'a \<Rightarrow> 'a" where
  "get_default field fallback = (case field of None \<Rightarrow> fallback | Some v \<Rightarrow> v)"

text \<open>The empty dictionary \<open>{}\<close> that stands in for a missing pricing record.\<close>

definition empty_pricing :: pricing_rec where
  "empty_pricing =
     \<lparr>model_name = None, quota_type = None, model_ratio = None,
      completion_ratio = None, model_price = None\<rparr>"

text \<open>
  What \<open>urlopen\<close> followed by \<open>json.loads\<close> meets: no response, a body that is not
  JSON, or a parsed document.
\<close>

datatype 'a response = NoResponse | NotJson | Parsed 'a

fun fetch :: "'a response \<Rightarrow> error + 'a" where
  "fetch NoResponse = Inl NetworkError"
| "fetch NotJson = Inl DecodeError"
| "fetch (Parsed d) = Inr d"

subsection \<open>Renderer\<close>

text \<open>A loop whose body may raise: the first error ends it.\<close>

fun map_err :: "('a \<Rightarrow> error + 'b) \<Rightarrow> 'a list \<Rightarrow> error + 'b list" where
  "map_err f [] = Inr []"
| "map_err f (x # xs) =
     (case f x of
        Inl e \<Rightarrow> Inl e
      | Inr y \<Rightarrow> (case map_err f xs of Inl e \<Rightarrow> Inl e | Inr ys \<Rightarrow> Inr (y # ys)))"

text \<open>Building the pricing lookup: a later record of the same name replaces an earlier one.\<close>

fun pricing_loop ::
  "(string \<rightharpoonup> pricing_rec) \<Rightarrow> pricing_rec list \<Rightarrow> error + (string \<rightharpoonup> pricing_rec)" where
  "pricing_loop pricing [] = Inr pricing"
| "pricing_loop pricing (p # ps) =
     (case subscript ''model_name'' (model_name p) of
        Inl e \<Rightarrow> Inl e
      | Inr name \<Rightarrow> pricing_loop (pricing(name \<mapsto> p)) ps)"

text \<open>
  \<open>models.sort(key=...)\<close>: the key of every model is computed first, then the list is
  sorted by key, stably.
\<close>

definition model_key :: "model_rec \<Rightarrow> error + string \<times> string" where
  "model_key m =
     (case subscript ''id'' (id' m) of
        Inl e \<Rightarrow> Inl e
      | Inr model_id \<Rightarrow>
          (case subscript ''owned_by'' (owned_by m) of
             Inl e \<Rightarrow> Inl e
           | Inr owner \<Rightarrow> Inr (detect_provider model_id owner, model_id)))"

definition sort_models :: "model_rec list \<Rightarrow> error + model_rec list" where
  "sort_models models =
     (case map_err model_key models of
        Inl e \<Rightarrow> Inl e
      | Inr keys \<Rightarrow> Inr (map snd (sort_key fst (zip keys models))))"

text \<open>The two price labels of a row, from the pricing record \<open>p\<close>.\<close>

definition price_labels :: "pricing_rec \<Rightarrow> error + string \<times> string" where
  "price_labels p =
     (let quota_type = get_default (quota_type p) (PInt 0)
      in if num_eq_int quota_type 1 then
           let price = get_default (model_price p) (PInt 0);
               input_str = (if num_gt_int price 0 then ''$'' @ py_str price @ ''/req'' else ''Free'');
               output_str = ''-''
           in Inr (input_str, output_str)
         else
           let ratio = get_default (model_ratio p) (PInt 0);
               comp_ratio = get_default (completion_ratio p) (PInt 1)
           in case num_mul_float ratio BASE_UNIT of
                Inl e \<Rightarrow> Inl e
              | Inr input_price \<Rightarrow>
                  (case num_mul ratio comp_ratio of
                     Inl e \<Rightarrow> Inl e
                   | Inr scaled \<Rightarrow>
                       (case num_mul_float scaled BASE_UNIT of
                          Inl e \<Rightarrow> Inl e
                        | Inr output_price \<Rightarrow>
                            Inr (format_price input_price, format_price output_price))))"

text \<open>
  One pass of the row loop gives the four values that the row's f-string interpolates:
  identifier, provider label, input label, output label.
\<close>

type_synonym display_row = "string \<times> string \<times> string \<times> string"

definition display_row :: "(string \<rightharpoonup> pricing_rec) \<Rightarrow> model_rec \<Rightarrow> error + display_row" where
  "display_row pricing m =
     (case subscript ''id'' (id' m) of
        Inl e \<Rightarrow> Inl e
      | Inr model_id \<Rightarrow>
          (case subscript ''owned_by'' (owned_by m) of
             Inl e \<Rightarrow> Inl e
           | Inr owner \<Rightarrow>
               let provider = detect_provider model_id owner;
                   p = get_default (pricing model_id) empty_pricing
               in case price_labels p of
                    Inl e \<Rightarrow> Inl e
                  | Inr (input_str, output_str) \<Rightarrow>
                      Inr (model_id, provider, input_str, output_str)))"

definition render_row :: "display_row \<Rightarrow> string" where
  "render_row r =
     (case r of (model_id, provider, input_str, output_str) \<Rightarrow>
        ''| `'' @ model_id @ ''` | '' @ provider @ '' | '' @ input_str @ '' | '' @ output_str @ '' |'')"

definition newline :: string where
  "newline = [CHR 0x0A]"

definition quote :: string where
  "quote = [CHR 0x22]"

text \<open>The document template, with the model count and the table filled in.\<close>

definition document_text :: "nat \<Rightarrow> string \<Rightarrow> string" where
  "document_text model_count table =
     concat (map (\<lambda>line. line @ newline)
       [''---'',
        ''title: '' @ quote @ ''Supported AI Models'' @ quote,
        ''description: '' @ quote @ ''List of AI models available through IoTeX AI Gateway'' @ quote,
        ''---'',
        [],
        ''IoTeX AI Gateway provides access to models from multiple leading AI providers. The model list is updated regularly as new models become available.'',
        [],
        ''## Available Models ('' @ show_nat model_count @ '' models)'',
        [],
        ''Prices are per 1M tokens.'',
        [],
        ''| Model | Provider | Input | Output |'',
        ''|-------|----------|------:|-------:|'',
        table,
        [],
        ''<Note>'',
        ''This list may not reflect the latest additions. Call the `/v1/models` endpoint for the most up-to-date list.'',
        ''</Note>'',
        [],
        ''## Query Models Programmatically'',
        [],
        ''```bash'',
        ''curl https://gateway.iotex.ai/v1/models'',
        ''```''])"

text \<open>
  The world the script runs in: the content of the output file (\<open>None\<close> where there is
  no file yet), the lines printed so far, and the directory above \<open>scripts/\<close>.
\<close>

record world =
  output_file :: "string option"
  stdout :: "string list"
  repo_root :: string

definition OUTPUT :: "world \<Rightarrow> string" where
  "OUTPUT w = repo_root w @ ''/overview/supported-ai-models.mdx''"

text \<open>
  Everything \<open>main\<close> does before it writes: both fetches, the pricing lookup, the sort
  and the row loop. The result is the sorted model list and the rows.
\<close>

definition collect ::
  "model_rec document response \<Rightarrow> pricing_rec document response \<Rightarrow>
   error + model_rec list \<times> display_row list" where
  "collect models_response pricing_response =
     (case fetch models_response of
        Inl e \<Rightarrow> Inl e
      | Inr models_data \<Rightarrow>
     (case fetch pricing_response of
        Inl e \<Rightarrow> Inl e
      | Inr pricing_data \<Rightarrow>
     (case subscript ''data'' (data pricing_data) of
        Inl e \<Rightarrow> Inl e
      | Inr records \<Rightarrow>
     (case pricing_loop Map.empty records of
        Inl e \<Rightarrow> Inl e
      | Inr pricing \<Rightarrow>
     (case subscript ''data'' (data models_data) of
        Inl e \<Rightarrow> Inl e
      | Inr unsorted \<Rightarrow>
     (case sort_models unsorted of
        Inl e \<Rightarrow> Inl e
      | Inr models \<Rightarrow>
     (case map_err (display_row pricing) models of
        Inl e \<Rightarrow> Inl e
      | Inr rows \<Rightarrow> Inr (models, rows))))))))"

definition main ::
  "model_rec document response \<Rightarrow> pricing_rec document response \<Rightarrow> world \<Rightarrow>
   (error + unit) \<times> world" where
  "main models_response pricing_response w =
     (case collect models_response pricing_response of
        Inl e \<Rightarrow> (Inl e, w)
      | Inr (models, rows) \<Rightarrow>
          let table = join newline (map render_row rows);
              content = document_text (length models) table
          in (Inr (),
              w\<lparr>output_file := Some content,
                stdout := stdout w @
                  [''Updated '' @ OUTPUT w @ '' with '' @ show_nat (length models) @ '' models'']\<rparr>))"

subsection \<open>Notions used in the statements\<close>

text \<open>
  The entries of a list that have not occurred before, in their order: entry \<open>i\<close> is kept
  where it differs from every entry in front of it.
\<close>

definition first_occurrences :: "'a list \<Rightarrow> 'a list" where
  "first_occurrences xs =
     map (\<lambda>i. xs ! i) (filter (\<lambda>i. xs ! i \<notin> set (take i xs)) [0..<length xs])"

fun unseen :: "'a set \<Rightarrow> 'a list \<Rightarrow> 'a list" where
  "unseen S [] = []"
| "unseen S (x # xs) = (if x \<in> S then unseen S xs else x # unseen (insert x S) xs)"

text \<open>The sort key that a row shows: provider label, then identifier.\<close>

definition row_key :: "display_row \<Rightarrow> string \<times> string" where
  "row_key r = (case r of (model_id, provider, input_str, output_str) \<Rightarrow> (provider, model_id))"

text \<open>The rationals that are binary64 values: rounding leaves them as they are.\<close>

definition is_double :: "rat \<Rightarrow> bool" where
  "is_double r = (round_double r = Fin r)"

text \<open>
  A string is a decimal numeral with \<open>n\<close> places for \<open>r\<close>: digits, a point and \<open>n\<close>
  digits, and the number it denotes is at most half a unit of its last place away from \<open>r\<close>.
\<close>

definition digits :: "string \<Rightarrow> bool" where
  "digits s = list_all (\<lambda>c. c \<in> set ''0123456789'') s"

definition read_nat :: "string \<Rightarrow> nat" where
  "read_nat s = foldl (\<lambda>a c. 10 * a + (of_char c - 48)) 0 s"

definition decimal_string :: "nat \<Rightarrow> rat \<Rightarrow> string \<Rightarrow> bool" where
  "decimal_string n r s =
     (\<exists>whole frac. s = whole @ ''.'' @ frac \<and> whole \<noteq> [] \<and> digits whole \<and> digits frac \<and>
        length frac = n \<and>
        \<bar>of_nat (read_nat (whole @ frac)) / 10 ^ n - r\<bar> \<le> 1 / (2 * 10 ^ n))"

text \<open>
  Inputs on which no subscript fails and no conversion overflows: every model has
  \<open>id\<close> and \<open>owned_by\<close>, every pricing record has \<open>model_name\<close>, and no pricing record
  holds an int too large for a float.
\<close>

definition complete_model :: "model_rec \<Rightarrow> bool" where
  "complete_model m = (id' m \<noteq> None \<and> owned_by m \<noteq> None)"

definition named_record :: "pricing_rec \<Rightarrow> bool" where
  "named_record p = (model_name p \<noteq> None)"

definition priceable :: "pricing_rec \<Rightarrow> bool" where
  "priceable p = (case price_labels p of Inl e \<Rightarrow> False | Inr labels \<Rightarrow> True)"

definition float_field :: "pynum option \<Rightarrow> bool" where
  "float_field x = (case x of Some (PInt i) \<Rightarrow> False | _ \<Rightarrow> True)"

section \<open>Properties\<close>

subsection \<open>Classifier\<close>

lemma startswith_iff: "startswith s p \<longleftrightarrow> take (length p) s = p"
  by (induction s p rule: startswith.induct) auto

lemma provider_scan_find:
  "provider_scan ps model_id =
     map_option snd (find (\<lambda>(prefix, label). startswith model_id prefix) ps)"
  by (induction ps) auto

lemma unseen_index:
  "unseen S xs = map (\<lambda>i. xs ! i) (filter (\<lambda>i. xs ! i \<notin> S \<union> set (take i xs)) [0..<length xs])"
proof (induction xs arbitrary: S)
  case Nil
  show ?case by simp
next
  case (Cons x xs)
  have upt: "[0..<length (x # xs)] = 0 # map Suc [0..<length xs]"
    by (simp add: upt_conv_Cons map_Suc_upt del: upt_Suc)
  show ?case
  proof (cases "x \<in> S")
    case True
    then have eq: "(\<lambda>i. xs ! i \<notin> S \<and> xs ! i \<noteq> x \<and> xs ! i \<notin> set (take i xs)) =
        (\<lambda>i. xs ! i \<notin> S \<and> xs ! i \<notin> set (take i xs))"
      by auto
    from True show ?thesis
      unfolding upt by (simp add: Cons.IH filter_map comp_def eq)
  next
    case False
    have eq: "(\<lambda>i. xs ! i \<noteq> x \<and> xs ! i \<notin> S \<and> xs ! i \<notin> set (take i xs)) =
        (\<lambda>i. xs ! i \<notin> S \<and> xs ! i \<noteq> x \<and> xs ! i \<notin> set (take i xs))"
      by auto
    from False show ?thesis
      unfolding upt by (simp add: Cons.IH filter_map comp_def eq)
  qed
qed

lemma category_loop_unseen:
  "category_loop acc eps = acc @ unseen (set acc) (map category_of eps)"
  by (induction eps arbitrary: acc) (auto simp: Let_def)

lemma category_loop_first_occurrences:
  "category_loop [] eps = first_occurrences (map category_of eps)"
  by (simp add: category_loop_unseen unseen_index first_occurrences_def)

subsection \<open>Loops and sorting\<close>

lemma map_err_all2:
  "map_err f xs = Inr ys \<longleftrightarrow> list_all2 (\<lambda>x y. f x = Inr y) xs ys"
proof (induction xs arbitrary: ys)
  case Nil
  show ?case by auto
next
  case (Cons x xs)
  show ?case
    by (cases ys) (auto simp: Cons.IH [symmetric] split: sum.splits)
qed

lemma map_err_length: "map_err f xs = Inr ys \<Longrightarrow> length ys = length xs"
  by (simp add: map_err_all2 list_all2_lengthD)

lemma map_err_total:
  "(\<And>x. x \<in> set xs \<Longrightarrow> \<exists>y. f x = Inr y) \<Longrightarrow> \<exists>ys. map_err f xs = Inr ys"
  by (induction xs) (fastforce split: sum.splits)+

lemma all2_zip_set:
  "list_all2 P xs ys \<Longrightarrow> (y, x) \<in> set (zip ys xs) \<Longrightarrow> P x y"
  by (induction xs ys rule: list_all2_induct) auto

lemma all2_of_pairs:
  "(\<And>k m. (k, m) \<in> set zs \<Longrightarrow> P m k) \<Longrightarrow> list_all2 P (map snd zs) (map fst zs)"
  by (induction zs) auto

lemma sort_models_sorted:
  assumes "sort_models unsorted = Inr models"
  shows "mset models = mset unsorted"
    and "\<exists>keys. map_err model_key models = Inr keys \<and> sorted keys"
proof -
  from assms obtain keys where keys: "map_err model_key unsorted = Inr keys"
    and models: "models = map snd (sort_key fst (zip keys unsorted))"
    by (auto simp: sort_models_def split: sum.splits)
  let ?zs = "zip keys unsorted"
  let ?S = "sort_key fst ?zs"
  from keys have all2: "list_all2 (\<lambda>m k. model_key m = Inr k) unsorted keys"
    by (simp add: map_err_all2)
  then have len: "length keys = length unsorted"
    by (simp add: list_all2_lengthD)
  have "mset (map snd ?S) = image_mset snd (mset ?S)" by simp
  also have "\<dots> = image_mset snd (mset ?zs)" by simp
  also have "\<dots> = mset (map snd ?zs)" by simp
  also have "\<dots> = mset unsorted" using len by simp
  finally show "mset models = mset unsorted" by (simp add: models)
  have "\<And>k m. (k, m) \<in> set ?S \<Longrightarrow> model_key m = Inr k"
    using all2_zip_set [OF all2] by simp
  then have "list_all2 (\<lambda>m k. model_key m = Inr k) (map snd ?S) (map fst ?S)"
    by (rule all2_of_pairs)
  then have "map_err model_key models = Inr (map fst ?S)"
    by (simp add: map_err_all2 models)
  moreover have "sorted (map fst ?S)" by (rule sorted_sort_key)
  ultimately show "\<exists>keys. map_err model_key models = Inr keys \<and> sorted keys" by blast
qed

lemma display_row_key:
  "display_row pricing m = Inr r \<Longrightarrow> model_key m = Inr (row_key r)"
  by (auto simp: display_row_def model_key_def row_key_def Let_def split: sum.splits)

lemma rows_keys:
  assumes "map_err (display_row pricing) models = Inr rows"
    and "map_err model_key models = Inr keys"
  shows "map row_key rows = keys"
proof -
  from assms(1) have "list_all2 (\<lambda>m r. model_key m = Inr (row_key r)) models rows"
    unfolding map_err_all2 by (rule list_all2_mono) (rule display_row_key)
  moreover from assms(2) have "list_all2 (\<lambda>m k. model_key m = Inr k) models keys"
    by (simp add: map_err_all2)
  ultimately show ?thesis
  proof (induction models rows arbitrary: keys rule: list_all2_induct)
    case Nil
    then show ?case by simp
  next
    case (Cons m ms r rs)
    then show ?case by (cases keys) auto
  qed
qed

lemma collect_sorted:
  assumes "collect models_response pricing_response = Inr (models, rows)"
  shows "sorted (map row_key rows)"
proof -
  from assms obtain unsorted pricing where s: "sort_models unsorted = Inr models"
    and r: "map_err (display_row pricing) models = Inr rows"
    by (auto simp: collect_def split: sum.splits)
  from sort_models_sorted(2) [OF s] obtain keys
    where "map_err model_key models = Inr keys" "sorted keys" by blast
  with rows_keys [OF r] show ?thesis by simp
qed

lemma collect_data:
  assumes "collect models_response pricing_response = Inr (models, rows)"
  shows "\<exists>md unsorted. models_response = Parsed md \<and> data md = Some unsorted \<and>
           mset models = mset unsorted \<and> length rows = length unsorted"
proof -
  from assms obtain md unsorted pricing where md: "models_response = Parsed md"
    and d: "data md = Some unsorted"
    and s: "sort_models unsorted = Inr models"
    and r: "map_err (display_row pricing) models = Inr rows"
    by (cases models_response)
      (auto simp: collect_def subscript_def split: sum.splits option.splits)
  have "mset models = mset unsorted" by (rule sort_models_sorted(1) [OF s])
  moreover from this have "length models = length unsorted" by (metis size_mset)
  moreover have "length rows = length models" by (rule map_err_length [OF r])
  ultimately show ?thesis using md d by auto
qed

subsection \<open>Rounding to binary64\<close>

lemma pow2_powi: "pow2 e = 2 powi e"
  by (simp add: pow2_def power_int_def power_inverse [symmetric] inverse_eq_divide power_one_over)

lemma pow2_pos: "0 < pow2 e"
  by (simp add: pow2_powi)

lemma pow2_mono: "m \<le> n \<Longrightarrow> pow2 m \<le> pow2 n"
  by (simp add: pow2_powi power_int_increasing)

lemma pow2_diff: "pow2 (int m - int n) = 2 ^ m / 2 ^ n"
  by (simp add: pow2_powi power_int_diff)

lemma bit_length_pos: "0 < n \<Longrightarrow> 0 < bit_length n"
  by (subst bit_length.simps) simp

lemma bit_length_bounds:
  "0 < n \<Longrightarrow> 2 ^ (bit_length n - 1) \<le> n \<and> n < 2 ^ bit_length n"
proof (induction n rule: bit_length.induct)
  case (1 n)
  show ?case
  proof (cases "n div 2 = 0")
    case True
    with "1.prems" have "n = 1" by (simp add: div_eq_0_iff) 
    then show ?thesis by (simp add: bit_length.simps)
  next
    case False
    then have pos: "0 < n div 2" by simp
    define k where "k = bit_length (n div 2)"
    have k: "0 < k" unfolding k_def using pos by (rule bit_length_pos)
    from "1.IH" [OF _ pos] "1.prems"
    have ih: "2 ^ (k - 1) \<le> n div 2" "n div 2 < 2 ^ k" by (simp_all add: k_def)
    have bl: "bit_length n = Suc k"
      using "1.prems" by (subst bit_length.simps) (simp add: k_def)
    from k have "(2::nat) ^ k = 2 * 2 ^ (k - 1)" by (cases k) simp_all
    with ih(1) have lo: "2 ^ k \<le> n" by linarith
    from ih(2) have "n < 2 * 2 ^ k" by linarith
    with lo show ?thesis by (simp add: bl)
  qed
qed

lemma float_exponent_bounds:
  assumes "0 < a"
  shows "pow2 (float_exponent a) \<le> a \<and> a < pow2 (float_exponent a + 1)"
proof -
  obtain n d where q: "quotient_of a = (n, d)" by (cases "quotient_of a")
  have d: "0 < d" by (rule quotient_of_denom_pos [OF q])
  have a: "a = of_int n / of_int d" by (rule quotient_of_div [OF q])
  have n: "0 < n" using assms d by (simp add: a zero_less_divide_iff)
  define N D where "N = nat n" and "D = nat d"
  have N: "0 < N" and D: "0 < D" using n d by (simp_all add: N_def D_def)
  have a': "a = of_nat N / of_nat D"
    using n d by (simp add: a N_def D_def)
  define bn bd where "bn = bit_length N" and "bd = bit_length D"
  define e0 where "e0 = int bn - int bd"
  have bd: "0 < bd" unfolding bd_def using D by (rule bit_length_pos)
  from bit_length_bounds [OF N] have Nb: "2 ^ (bn - 1) \<le> N" "N < 2 ^ bn"
    by (simp_all add: bn_def)
  from bit_length_bounds [OF D] have Db: "2 ^ (bd - 1) \<le> D" "D < 2 ^ bd"
    by (simp_all add: bd_def)
  have Nr: "(2::rat) ^ (bn - 1) \<le> of_nat N" "(of_nat N :: rat) < 2 ^ bn"
    using Nb by (metis of_nat_le_iff of_nat_numeral of_nat_power, metis of_nat_less_iff of_nat_numeral of_nat_power)
  have Dr: "(2::rat) ^ (bd - 1) \<le> of_nat D" "(of_nat D :: rat) < 2 ^ bd"
    using Db by (metis of_nat_le_iff of_nat_numeral of_nat_power, metis of_nat_less_iff of_nat_numeral of_nat_power)
  have "e0 + 1 = int bn - int (bd - 1)" using bd by (simp add: e0_def)
  then have "pow2 (e0 + 1) = 2 ^ bn / 2 ^ (bd - 1)" by (simp only: pow2_diff)
  moreover have "a < 2 ^ bn / 2 ^ (bd - 1)"
    unfolding a' using Nr(2) Dr(1) by (intro frac_less) simp_all
  ultimately have up: "a < pow2 (e0 + 1)" by simp
  have "pow2 e0 = 2 ^ bn / 2 ^ bd" by (simp only: e0_def pow2_diff)
  then have up0: "pow2 e0 = 2 * (2 ^ (bn - 1) / 2 ^ bd)"
    using bit_length_pos [OF N] by (cases bn) (simp_all add: bn_def)
  have "(2::rat) ^ (bn - 1) / 2 ^ bd \<le> of_nat N / of_nat D"
    using Nr(1) Dr(2) D by (intro frac_le) simp_all
  then have lo': "pow2 e0 \<le> 2 * a" by (simp add: up0 a')
  have "pow2 e0 = pow2 ((e0 - 1) + 1)" by simp
  also have "\<dots> = 2 * pow2 (e0 - 1)"
    unfolding pow2_powi by (subst power_int_add) simp_all
  finally have lo: "pow2 (e0 - 1) \<le> a" using lo' by simp
  have fe: "float_exponent a = (if pow2 e0 \<le> a then e0 else e0 - 1)"
    by (simp add: float_exponent_def q Let_def N_def D_def e0_def bn_def bd_def)
  show ?thesis
  proof (cases "pow2 e0 \<le> a")
    case True
    with up fe show ?thesis by simp
  next
    case False
    with lo fe show ?thesis by simp
  qed
qed

lemma float_exponent_unique:
  assumes "0 < a" "pow2 e \<le> a" "a < pow2 (e + 1)"
  shows "float_exponent a = e"
proof (rule ccontr)
  assume ne: "float_exponent a \<noteq> e"
  from float_exponent_bounds [OF assms(1)]
  have b: "pow2 (float_exponent a) \<le> a" "a < pow2 (float_exponent a + 1)" by simp_all
  show False
  proof (cases "float_exponent a < e")
    case True
    then have "pow2 (float_exponent a + 1) \<le> pow2 e" by (intro pow2_mono) simp
    with b(2) assms(2) show False by simp
  next
    case False
    with ne have "pow2 (e + 1) \<le> pow2 (float_exponent a)" by (intro pow2_mono) simp
    with b(1) assms(3) show False by simp
  qed
qed

lemma float_literal_hundredth: "float_literal (1 / 100) = 5764607523034235 / 2 ^ 59"
  by code_simp

lemma no_double_below_hundredth:
  assumes "round_double r = Fin r" "1 / 100 \<le> r"
  shows "5764607523034235 / 2 ^ 59 \<le> r"
proof (rule ccontr)
  assume "\<not> 5764607523034235 / 2 ^ 59 \<le> r"
  then have up: "r < 5764607523034235 / 2 ^ 59" by simp
  from assms(2) have pos: "0 < r" by simp
  have e: "float_exponent r = - 7"
  proof (rule float_exponent_unique [OF pos])
    show "pow2 (- 7) \<le> r" using assms(2) by (simp add: pow2_def)
    show "r < pow2 (- 7 + 1)" using up by (simp add: pow2_def)
  qed
  define m where "m = round_half_even (r / pow2 (- 59))"
  have "round_double r =
      (if pow2 1024 \<le> of_int m * pow2 (- 59) then PInf else Fin (of_int m * pow2 (- 59)))"
    using pos by (simp add: round_double_def e Let_def m_def)
  with assms(1) have "r = of_int m * pow2 (- 59)"
    by (simp split: if_splits)
  then have r: "r = of_int m / 2 ^ 59" by (simp add: pow2_def)
  from assms(2) have "(2::rat) ^ 59 \<le> 100 * of_int m" by (simp add: r field_simps)
  then have "(2::rat) ^ 59 \<le> of_int (100 * m)" by simp
  then have "(of_int (2 ^ 59) :: rat) \<le> of_int (100 * m)" by simp
  then have lo: "(2::int) ^ 59 \<le> 100 * m" by (simp only: of_int_le_iff)
  from up have "(of_int m :: rat) < of_int 5764607523034235" by (simp add: r field_simps)
  then have "m < 5764607523034235" by (simp only: of_int_less_iff)
  with lo show False by simp
qed

subsection \<open>Printing\<close>

lemma digit_char_table: "map digit_char [0, 1, 2, 3, 4, 5, 6, 7, 8, 9] = ''0123456789''"
  by code_simp

lemma digit_char_nth: "d < 10 \<Longrightarrow> digit_char d = ''0123456789'' ! d"
proof -
  assume "d < 10"
  then have "map digit_char [0, 1, 2, 3, 4, 5, 6, 7, 8, 9] ! d = digit_char ([0, 1, 2, 3, 4, 5, 6, 7, 8, 9] ! d)"
    by (intro nth_map) simp
  moreover from \<open>d < 10\<close> have "[0, 1, 2, 3, 4, 5, 6, 7, 8, 9] ! d = d"
    by (auto simp: less_Suc_eq numeral_eq_Suc nth_Cons')
  ultimately show ?thesis by (simp only: digit_char_table)
qed

lemma digit_char_digit: "d < 10 \<Longrightarrow> digit_char d \<in> set ''0123456789''"
  unfolding digit_char_nth by (intro nth_mem) simp

lemma digit_char_value: "d < 10 \<Longrightarrow> of_char (digit_char d) - 48 = d"
  by (simp add: digit_char_def)

lemma show_nat_digits: "digits (show_nat n)"
proof (induction n rule: show_nat.induct)
  case (1 n)
  show ?case
  proof (cases "n < 10")
    case True
    then show ?thesis
      by (subst show_nat.simps) (simp add: digits_def digit_char_digit del: set_simps)
  next
    case False
    have "n mod 10 < 10" by simp
    then have "digit_char (n mod 10) \<in> set ''0123456789''" by (rule digit_char_digit)
    with False "1.IH" show ?thesis
      by (subst show_nat.simps) (simp add: digits_def del: set_simps)
  qed
qed

lemma show_nat_nonempty: "show_nat n \<noteq> []"
  by (subst show_nat.simps) simp

lemma read_nat_append: "read_nat (s @ [c]) = 10 * read_nat s + (of_char c - 48)"
  by (simp add: read_nat_def)

lemma read_show_nat: "read_nat (show_nat n) = n"
proof (induction n rule: show_nat.induct)
  case (1 n)
  show ?case
  proof (cases "n < 10")
    case True
    then show ?thesis
      by (subst show_nat.simps) (simp add: read_nat_def digit_char_value)
  next
    case False
    with "1.IH" show ?thesis
      by (subst show_nat.simps) (simp add: read_nat_append digit_char_value)
  qed
qed

lemma read_nat_zeros: "read_nat (replicate k CHR ''0'' @ s) = read_nat s"
proof -
  have "foldl (\<lambda>a c. 10 * a + (of_char c - 48)) 0 (replicate k CHR ''0'') = (0::nat)"
    by (induction k) simp_all
  then show ?thesis by (simp add: read_nat_def)
qed

lemma round_half_even_near: "\<bar>of_int (round_half_even x) - x\<bar> \<le> 1 / 2"
proof -
  have "of_int \<lfloor>x\<rfloor> \<le> x" "x < of_int \<lfloor>x\<rfloor> + 1" by linarith+
  then show ?thesis
    by (auto simp: round_half_even_def Let_def abs_le_iff)
qed

lemma round_half_even_nonneg: "0 \<le> x \<Longrightarrow> 0 \<le> round_half_even x"
  by (auto simp: round_half_even_def Let_def)

lemma fixed_digits_props:
  assumes "0 \<le> a"
  shows "digits (fixed_digits n a)" "n < length (fixed_digits n a)"
    "\<bar>of_nat (read_nat (fixed_digits n a)) / 10 ^ n - a\<bar> \<le> 1 / (2 * 10 ^ n)"
proof -
  define k where "k = round_half_even (a * 10 ^ n)"
  have fd: "fixed_digits n a =
      replicate (Suc n - length (show_nat (nat k))) CHR ''0'' @ show_nat (nat k)"
    by (simp add: fixed_digits_def k_def Let_def)
  have z: "CHR ''0'' \<in> set ''0123456789''" by simp
  show "digits (fixed_digits n a)"
    using show_nat_digits [of "nat k"] z
    by (auto simp: fd digits_def list_all_iff simp del: set_simps)
  show "n < length (fixed_digits n a)"
    unfolding fd by simp
  have k: "0 \<le> k" unfolding k_def using assms by (intro round_half_even_nonneg) simp
  have "read_nat (fixed_digits n a) = nat k"
    by (simp only: fd read_nat_zeros read_show_nat)
  then have "of_nat (read_nat (fixed_digits n a)) = (of_int k :: rat)" using k by simp
  moreover have "\<bar>of_int k - a * 10 ^ n\<bar> \<le> 1 / 2"
    unfolding k_def by (rule round_half_even_near)
  ultimately have "\<bar>of_nat (read_nat (fixed_digits n a)) - a * 10 ^ n\<bar> \<le> 1 / 2" by simp
  then have "\<bar>of_nat (read_nat (fixed_digits n a)) - a * 10 ^ n\<bar> / 10 ^ n \<le> (1 / 2) / 10 ^ n"
    by (intro divide_right_mono) simp_all
  moreover have "\<bar>of_nat (read_nat (fixed_digits n a)) - a * 10 ^ n\<bar> / 10 ^ n =
      \<bar>of_nat (read_nat (fixed_digits n a)) / 10 ^ n - a\<bar>"
  proof -
    have "of_nat (read_nat (fixed_digits n a)) / 10 ^ n - a =
        (of_nat (read_nat (fixed_digits n a)) - a * 10 ^ n) / 10 ^ n"
      by (simp add: diff_divide_distrib)
    then have "\<bar>of_nat (read_nat (fixed_digits n a)) / 10 ^ n - a\<bar> =
        \<bar>(of_nat (read_nat (fixed_digits n a)) - a * 10 ^ n) / 10 ^ n\<bar>"
      by (rule arg_cong)
    also have "\<dots> = \<bar>of_nat (read_nat (fixed_digits n a)) - a * 10 ^ n\<bar> / 10 ^ n"
      by (simp add: abs_divide)
    finally show ?thesis by (rule sym)
  qed
  ultimately show "\<bar>of_nat (read_nat (fixed_digits n a)) / 10 ^ n - a\<bar> \<le> 1 / (2 * 10 ^ n)"
    by simp
qed

lemma format_fixed_decimal:
  assumes "0 \<le> r" "0 < n"
  shows "decimal_string n r (format_fixed n r)"
proof -
  define ds where "ds = fixed_digits n r"
  define k where "k = length ds - n"
  from fixed_digits_props [OF assms(1), of n]
  have d: "digits ds" and l: "n < length ds"
    and v: "\<bar>of_nat (read_nat ds) / 10 ^ n - r\<bar> \<le> 1 / (2 * 10 ^ n)"
    by (simp_all add: ds_def)
  have ff: "format_fixed n r = take k ds @ ''.'' @ drop k ds"
    using assms by (simp add: format_fixed_def Let_def ds_def k_def)
  have "take k ds \<noteq> []" using l by (auto simp: k_def)
  moreover have "digits (take k ds)" "digits (drop k ds)"
    using d by (auto simp: digits_def list_all_iff dest: in_set_takeD in_set_dropD simp del: set_simps)
  moreover have "length (drop k ds) = n" using l by (simp add: k_def)
  moreover have "take k ds @ drop k ds = ds" by simp
  ultimately show ?thesis
    unfolding decimal_string_def ff using v by (intro exI [of _ "take k ds"] exI [of _ "drop k ds"]) simp
qed

lemma num_eq_int_unique: "num_eq_int q i \<Longrightarrow> num_eq_int q j \<Longrightarrow> i = j"
  by (cases q; cases "case q of PFloat f \<Rightarrow> f") auto

lemma format_price_not_dash: "format_price v \<noteq> ''-''"
  by (simp add: format_price_def)

lemma token_rule:
  assumes "\<not> num_eq_int (get_default (quota_type p) (PInt 0)) 1"
  shows "price_labels p = Inr (inp, out) \<longleftrightarrow>
    (\<exists>a s b.
       num_mul_float (get_default (model_ratio p) (PInt 0)) BASE_UNIT = Inr a \<and>
       num_mul (get_default (model_ratio p) (PInt 0))
         (get_default (completion_ratio p) (PInt 1)) = Inr s \<and>
       num_mul_float s BASE_UNIT = Inr b \<and>
       inp = format_price a \<and> out = format_price b)"
  using assms by (auto simp: price_labels_def Let_def split: sum.splits)

lemma request_rule:
  assumes "num_eq_int (get_default (quota_type p) (PInt 0)) 1"
  shows "price_labels p =
    Inr (if num_gt_int (get_default (model_price p) (PInt 0)) 0
         then ''$'' @ py_str (get_default (model_price p) (PInt 0)) @ ''/req''
         else ''Free'', ''-'')"
  using assms by (simp add: price_labels_def Let_def)

lemma to_float_defaults:
  "to_float (PInt 0) = Inr (Fin 0)" "to_float (PInt 1) = Inr (Fin 1)"
  by code_simp+

lemma float_mul_zero_base: "float_mul (Fin 0) BASE_UNIT = Fin 0"
  by (simp add: BASE_UNIT_def round_double_def)

lemma empty_pricing_labels: "price_labels empty_pricing = Inr (''Free'', ''Free'')"
  by code_simp

section \<open>The claims\<close>

subsection \<open>Classifier claims\<close>

text \<open>
  C5: \<open>detect_provider\<close> goes through the declared sequence of (prefix, label) pairs and
  returns the label of the first prefix that the model identifier starts with; where no
  prefix matches it returns \<open>Google\<close> for the owner \<open>vertex-ai\<close>, \<open>OpenAI\<close> for the owner
  \<open>openai\<close>, and otherwise the owner with hyphens replaced by spaces, in title case.
  \<open>startswith\<close> is the prefix test, and the two examples of the specification hold.
\<close>

theorem detect_provider_first_match:
  "detect_provider model_id owner =
     (case find (\<lambda>(prefix, label). startswith model_id prefix) PROVIDER_MAP of
        Some (prefix, label) \<Rightarrow> label
      | None \<Rightarrow>
          if owner = ''vertex-ai'' then ''Google''
          else if owner = ''openai'' then ''OpenAI''
          else title (replace_char CHR ''-'' CHR '' '' owner))
   \<and> startswith model_id prefix = (take (length prefix) model_id = prefix)
   \<and> detect_provider ''gpt-4o'' ''openai'' = ''OpenAI''
   \<and> detect_provider ''unknown-model'' ''some-org'' = ''Some Org''"
proof -
  have "detect_provider model_id owner =
     (case find (\<lambda>(prefix, label). startswith model_id prefix) PROVIDER_MAP of
        Some (prefix, label) \<Rightarrow> label
      | None \<Rightarrow>
          if owner = ''vertex-ai'' then ''Google''
          else if owner = ''openai'' then ''OpenAI''
          else title (replace_char CHR ''-'' CHR '' '' owner))"
    unfolding detect_provider_def provider_scan_find
    by (simp split: option.splits prod.splits)
  moreover have "detect_provider ''gpt-4o'' ''openai'' = ''OpenAI''" by code_simp
  moreover have "detect_provider ''unknown-model'' ''some-org'' = ''Some Org''" by code_simp
  ultimately show ?thesis by (simp only: startswith_iff simp_thms)
qed

text \<open>
  C6: \<open>detect_category\<close> maps each tag, in input order, through the lookup (a tag that is
  not in the lookup is put in title case with hyphens replaced by spaces), keeps the first
  occurrence of every label in order, and joins the labels with a comma and a space; the
  two examples of the specification hold.
\<close>

theorem detect_category_spec:
  "detect_category endpoint_types =
     join '', '' (first_occurrences (map category_of endpoint_types))
   \<and> category_of ''openai'' = ''Chat''
   \<and> category_of ''gemini'' = ''Chat''
   \<and> category_of ''image-generation'' = ''Image''
   \<and> (ep \<notin> {''openai'', ''gemini'', ''image-generation''} \<longrightarrow>
        category_of ep = title (replace_char CHR ''-'' CHR '' '' ep))
   \<and> detect_category [''openai'', ''image-generation''] = ''Chat, Image''
   \<and> detect_category [] = []"
proof -
  have "detect_category endpoint_types =
      join '', '' (first_occurrences (map category_of endpoint_types))"
    by (simp only: detect_category_def category_loop_first_occurrences)
  moreover have "category_of ''openai'' = ''Chat''" "category_of ''gemini'' = ''Chat''"
    "category_of ''image-generation'' = ''Image''"
    by (simp_all add: category_of_def CATEGORY_MAP_def)
  moreover have "ep \<notin> {''openai'', ''gemini'', ''image-generation''} \<longrightarrow>
      category_of ep = title (replace_char CHR ''-'' CHR '' '' ep)"
    by (simp add: category_of_def CATEGORY_MAP_def)
  moreover have "detect_category [''openai'', ''image-generation''] = ''Chat, Image''"
    by code_simp
  moreover have "detect_category [] = []" by code_simp
  ultimately show ?thesis by blast
qed

theorem detect_category_spec_witness:
  "''text-embedding'' \<notin> {''openai'', ''gemini'', ''image-generation''}
   \<and> category_of ''text-embedding'' = ''Text Embedding''
   \<and> detect_category [''gemini'', ''text-embedding'', ''openai'', ''text-embedding''] =
       ''Chat, Text Embedding''"
proof -
  have h: "''text-embedding'' \<notin> {''openai'', ''gemini'', ''image-generation''}" by simp
  have t: "title (replace_char CHR ''-'' CHR '' '' ''text-embedding'') = ''Text Embedding''"
    by code_simp
  have f: "join '', '' (first_occurrences (map category_of
      [''gemini'', ''text-embedding'', ''openai'', ''text-embedding''])) = ''Chat, Text Embedding''"
    by code_simp
  note spec = detect_category_spec
    [of "[''gemini'', ''text-embedding'', ''openai'', ''text-embedding'']" "''text-embedding''"]
  from spec have "detect_category [''gemini'', ''text-embedding'', ''openai'', ''text-embedding''] =
      ''Chat, Text Embedding''"
    by (simp only: f)
  moreover from spec h have "category_of ''text-embedding'' = ''Text Embedding''"
    by (simp only: t) blast
  ultimately show ?thesis using h by blast
qed

end
